theory Spec2Isabelle
  imports Main "HOL-Library.Sublist"
begin

section \<open>Go strings\<close>

text \<open>
  A Go string is modelled as a \<^typ>\<open>string\<close>, one \<^typ>\<open>char\<close> per byte. The functions of
  package \<^verbatim>\<open>strings\<close> that the adapters call are written out below for ASCII text: case
  mapping touches the letters A-Z and a-z only, and white space is the six ASCII white space
  bytes. On a string whose bytes are all below \<^verbatim>\<open>0x80\<close> (\<open>ascii\<close>, the top bit of every byte is
  clear) they compute what Go computes. On other strings Go maps case by the Unicode tables and
  trims and splits at Unicode white space, which the definitions below do not; a statement
  about arbitrary strings that are case-mapped, trimmed or split therefore assumes \<open>ascii\<close> of
  them. \<^verbatim>\<open>strings.HasPrefix\<close>, \<^verbatim>\<open>strings.Contains\<close>, \<^verbatim>\<open>strings.Join\<close> and
  \<^verbatim>\<open>strings.ReplaceAll\<close> compare and copy bytes, for every string.
\<close>

definition ascii :: "string \<Rightarrow> bool" where
  "ascii s \<longleftrightarrow> list_all (\<lambda>c. \<not> digit7 c) s"

definition upper_letters :: string where
  "upper_letters = ''ABCDEFGHIJKLMNOPQRSTUVWXYZ''"

definition lower_letters :: string where
  "lower_letters = ''abcdefghijklmnopqrstuvwxyz''"

definition lower_char :: "char \<Rightarrow> char" where
  "lower_char c = (case map_of (zip upper_letters lower_letters) c of Some d \<Rightarrow> d | None \<Rightarrow> c)"

definition upper_char :: "char \<Rightarrow> char" where
  "upper_char c = (case map_of (zip lower_letters upper_letters) c of Some d \<Rightarrow> d | None \<Rightarrow> c)"

definition ToLower :: "string \<Rightarrow> string" where
  "ToLower s = map lower_char s"

definition ToUpper :: "string \<Rightarrow> string" where
  "ToUpper s = map upper_char s"

definition is_space :: "char \<Rightarrow> bool" where
  "is_space c \<longleftrightarrow> c \<in> set [CHR '' '', CHR 0x09, CHR 0x0A, CHR 0x0B, CHR 0x0C, CHR 0x0D]"

definition TrimSpace :: "string \<Rightarrow> string" where
  "TrimSpace s = rev (dropWhile is_space (rev (dropWhile is_space s)))"

fun HasPrefix :: "string \<Rightarrow> string \<Rightarrow> bool" where
  "HasPrefix s [] = True"
| "HasPrefix [] (p # ps) = False"
| "HasPrefix (c # cs) (p # ps) = (c = p \<and> HasPrefix cs ps)"

fun Contains :: "string \<Rightarrow> string \<Rightarrow> bool" where
  "Contains [] substr = (substr = [])"
| "Contains (c # cs) substr = (HasPrefix (c # cs) substr \<or> Contains cs substr)"

fun Join :: "string list \<Rightarrow> string \<Rightarrow> string" where
  "Join [] sep = []"
| "Join [x] sep = x"
| "Join (x # y # ys) sep = x @ sep @ Join (y # ys) sep"

text \<open>\<^verbatim>\<open>strings.Fields\<close>: the maximal runs of non-space bytes, \<open>cur\<close> being the run read so far.\<close>

fun fields_loop :: "string \<Rightarrow> string \<Rightarrow> string list" where
  "fields_loop [] cur = (if cur = [] then [] else [cur])"
| "fields_loop (c # cs) cur =
     (if is_space c then (if cur = [] then fields_loop cs [] else cur # fields_loop cs [])
      else fields_loop cs (cur @ [c]))"

definition Fields :: "string \<Rightarrow> string list" where
  "Fields s = fields_loop s []"

text \<open>
  \<^verbatim>\<open>strings.ReplaceAll\<close> for a non-empty \<open>old\<close> (the one call site passes \<^verbatim>\<open>&quot;\<close>):
  occurrences are replaced from the left and do not overlap.
\<close>

function ReplaceAll :: "string \<Rightarrow> string \<Rightarrow> string \<Rightarrow> string" where
  "ReplaceAll [] old new = []"
| "ReplaceAll (c # cs) old new =
     (if old \<noteq> [] \<and> HasPrefix (c # cs) old
      then new @ ReplaceAll (drop (length old - 1) cs) old new
      else c # ReplaceAll cs old new)"
  by pat_completeness auto
termination
  by (relation "measure (\<lambda>(s, old, new). length s)") auto

section \<open>Go maps and their iteration order\<close>

text \<open>
  A \<^verbatim>\<open>map[string]V\<close> is a partial function. A \<^verbatim>\<open>for k, v := range m\<close> visits every
  entry once, in an order the Go runtime chooses afresh for every loop; the model takes that
  order as a list of keys \<open>ks\<close>, and \<open>valid_order ks m\<close> says that \<open>ks\<close> is an order the
  runtime may choose for \<open>m\<close>.
\<close>

definition range_entries :: "string list \<Rightarrow> (string \<rightharpoonup> 'v) \<Rightarrow> (string \<times> 'v) list" where
  "range_entries ks m = List.map_filter (\<lambda>k. map_option (Pair k) (m k)) ks"

definition valid_order :: "string list \<Rightarrow> (string \<rightharpoonup> 'v) \<Rightarrow> bool" where
  "valid_order ks m \<longleftrightarrow> distinct ks \<and> set ks = dom m"

text \<open>
  \<^verbatim>\<open>m[k]\<close> read without the \<^verbatim>\<open>ok\<close> flag gives the zero value for a missing key;
  \<^verbatim>\<open>len(m) == 0\<close> is \<open>m = Map.empty\<close>.
\<close>

definition index_or_empty :: "(string \<rightharpoonup> string) \<Rightarrow> string \<Rightarrow> string" where
  "index_or_empty m k = (case m k of Some v \<Rightarrow> v | None \<Rightarrow> [])"

section \<open>internal/types: SizeChart\<close>

record SizeChart =
  Headers :: "string list"
  Rows :: "(string \<rightharpoonup> string) list"

text \<open>
  The errors that the modelled functions return with \<^verbatim>\<open>fmt.Errorf\<close>: no table under the
  selector, no header cell, no data row, no collection link; and, in the LittleBoxIndia adapter,
  \<^verbatim>\<open>no valid size chart found on page\<close>, \<^verbatim>\<open>no valid size chart rows found\<close> and
  \<^verbatim>\<open>no size headers found\<close>.
\<close>

datatype error = TableNotFound | NoHeaders | NoDataRows | NoCollectionURLs
  | NoValidSizeChart | NoSizeChartRows | NoSizeHeaders

section \<open>adapters/base.go\<close>

subsection \<open>RemoveDuplicateURLs\<close>

fun dedup_loop :: "string list \<Rightarrow> (string \<rightharpoonup> bool) \<Rightarrow> string list \<Rightarrow> string list" where
  "dedup_loop [] seen uniqueURLs = uniqueURLs"
| "dedup_loop (url # urls) seen uniqueURLs =
     (if \<not> (case seen url of Some b \<Rightarrow> b | None \<Rightarrow> False)
      then dedup_loop urls (seen(url \<mapsto> True)) (uniqueURLs @ [url])
      else dedup_loop urls seen uniqueURLs)"

definition RemoveDuplicateURLs :: "string list \<Rightarrow> string list" where
  "RemoveDuplicateURLs urls = dedup_loop urls Map.empty []"

text \<open>
  The reference the deduplication is compared with: keep the head, drop its later copies.
  \<open>first_index x xs\<close> is the position of the first \<open>x\<close> in \<open>xs\<close>.
\<close>

fun first_seen :: "string list \<Rightarrow> string list" where
  "first_seen [] = []"
| "first_seen (x # xs) = x # first_seen (filter (\<lambda>y. y \<noteq> x) xs)"

definition first_index :: "string \<Rightarrow> string list \<Rightarrow> nat" where
  "first_index x xs = length (takeWhile (\<lambda>y. y \<noteq> x) xs)"

subsection \<open>FilterSizeChart\<close>

definition outputHeaders :: "string list" where
  "outputHeaders = [''Size'', ''Bust (in)'', ''Waist (in)'', ''Hip (in)'']"

definition headerMap :: "string \<rightharpoonup> string" where
  "headerMap = [''size'' \<mapsto> ''Size'', ''bust'' \<mapsto> ''Bust (in)'', ''waist'' \<mapsto> ''Waist (in)'',
                ''hip'' \<mapsto> ''Hip (in)'', ''hips'' \<mapsto> ''Hip (in)'']"

text \<open>
  The orders of the two \<^verbatim>\<open>range\<close> loops over maps in \<^verbatim>\<open>FilterSizeChart\<close>:
  \<open>headerMap_order i\<close> is the order in which \<^verbatim>\<open>headerMap\<close> is visited for the \<open>i\<close>-th input
  header, \<open>inputToOutput_order i j\<close> the order in which \<^verbatim>\<open>inputToOutput\<close> is visited for the
  \<open>i\<close>-th row and the \<open>j\<close>-th output header.
\<close>

record iteration_order =
  headerMap_order :: "nat \<Rightarrow> string list"
  inputToOutput_order :: "nat \<Rightarrow> nat \<Rightarrow> string list"

text \<open>The loop over \<^verbatim>\<open>headerMap\<close> with its \<^verbatim>\<open>break\<close>: the canonical header assigned, if any.\<close>

fun first_canon :: "(string \<times> string) list \<Rightarrow> string \<Rightarrow> string option" where
  "first_canon [] lower = None"
| "first_canon ((key, canon) # rest) lower =
     (if Contains lower key then Some canon else first_canon rest lower)"

fun build_inputToOutput ::
  "(nat \<Rightarrow> string list) \<Rightarrow> nat \<Rightarrow> string list \<Rightarrow> (string \<rightharpoonup> string) \<Rightarrow> (string \<rightharpoonup> string)" where
  "build_inputToOutput ord i [] inputToOutput = inputToOutput"
| "build_inputToOutput ord i (h # hs) inputToOutput =
     build_inputToOutput ord (Suc i) hs
       (case first_canon (range_entries (ord i) headerMap) (ToLower h) of
          Some canon \<Rightarrow> inputToOutput(h \<mapsto> canon)
        | None \<Rightarrow> inputToOutput)"

text \<open>The loop over \<^verbatim>\<open>inputToOutput\<close> for one output header: the value found, if any.\<close>

fun find_value :: "(string \<times> string) list \<Rightarrow> string \<Rightarrow> (string \<rightharpoonup> string) \<Rightarrow> string option" where
  "find_value [] outHeader row = None"
| "find_value ((inHeader, out) # rest) outHeader row =
     (if out = outHeader
      then (case row inHeader of Some val \<Rightarrow> Some val | None \<Rightarrow> find_value rest outHeader row)
      else find_value rest outHeader row)"

fun fill_row ::
  "(nat \<Rightarrow> string list) \<Rightarrow> (string \<rightharpoonup> string) \<Rightarrow> (string \<rightharpoonup> string) \<Rightarrow> nat \<Rightarrow> string list \<Rightarrow>
   (string \<rightharpoonup> string) \<Rightarrow> (string \<rightharpoonup> string)" where
  "fill_row ord inputToOutput row j [] filteredRow = filteredRow"
| "fill_row ord inputToOutput row j (outHeader # rest) filteredRow =
     fill_row ord inputToOutput row (Suc j) rest
       (filteredRow(outHeader \<mapsto>
          (case find_value (range_entries (ord j) inputToOutput) outHeader row of
             Some val \<Rightarrow> val
           | None \<Rightarrow> [])))"

definition filteredRow_at ::
  "(nat \<Rightarrow> nat \<Rightarrow> string list) \<Rightarrow> (string \<rightharpoonup> string) \<Rightarrow> nat \<Rightarrow> (string \<rightharpoonup> string) \<Rightarrow>
   (string \<rightharpoonup> string)" where
  "filteredRow_at ord inputToOutput i row =
     fill_row (ord i) inputToOutput row 0 outputHeaders Map.empty"

definition has_measurement :: "(string \<rightharpoonup> string) \<Rightarrow> bool" where
  "has_measurement filteredRow \<longleftrightarrow>
     index_or_empty filteredRow ''Bust (in)'' \<noteq> [] \<or>
     index_or_empty filteredRow ''Waist (in)'' \<noteq> [] \<or>
     index_or_empty filteredRow ''Hip (in)'' \<noteq> []"

fun filter_rows ::
  "(nat \<Rightarrow> nat \<Rightarrow> string list) \<Rightarrow> (string \<rightharpoonup> string) \<Rightarrow> nat \<Rightarrow> (string \<rightharpoonup> string) list \<Rightarrow>
   (string \<rightharpoonup> string) list" where
  "filter_rows ord inputToOutput i [] = []"
| "filter_rows ord inputToOutput i (row # rows) =
     (if has_measurement (filteredRow_at ord inputToOutput i row)
      then filteredRow_at ord inputToOutput i row # filter_rows ord inputToOutput (Suc i) rows
      else filter_rows ord inputToOutput (Suc i) rows)"

definition inputToOutput_of :: "iteration_order \<Rightarrow> SizeChart \<Rightarrow> (string \<rightharpoonup> string)" where
  "inputToOutput_of ord sizeChart =
     build_inputToOutput (headerMap_order ord) 0 (Headers sizeChart) Map.empty"

text \<open>A \<^verbatim>\<open>*types.SizeChart\<close> is an option: \<open>None\<close> is \<^verbatim>\<open>nil\<close>.\<close>

definition FilterSizeChart :: "iteration_order \<Rightarrow> SizeChart option \<Rightarrow> SizeChart option" where
  "FilterSizeChart ord sizeChart =
     (case sizeChart of
        None \<Rightarrow> None
      | Some sc \<Rightarrow>
          if inputToOutput_of ord sc = Map.empty then None
          else Some \<lparr>Headers = outputHeaders,
                     Rows = filter_rows (inputToOutput_order ord) (inputToOutput_of ord sc) 0 (Rows sc)\<rparr>)"

text \<open>The iteration orders that the runtime may choose in a run on \<open>sc\<close>.\<close>

definition valid_iteration :: "iteration_order \<Rightarrow> SizeChart \<Rightarrow> bool" where
  "valid_iteration ord sc \<longleftrightarrow>
     (\<forall>i. valid_order (headerMap_order ord i) headerMap) \<and>
     (\<forall>i j. valid_order (inputToOutput_order ord i j) (inputToOutput_of ord sc))"

subsection \<open>IsValidSizeChart\<close>

definition sizeKeywords :: "string list" where
  "sizeKeywords = [''size'', ''bust'', ''waist'', ''hip'', ''chest'', ''length'', ''width'']"

definition size_indicator :: "string \<Rightarrow> bool" where
  "size_indicator val \<longleftrightarrow>
     Contains (ToUpper val) ''S'' \<or> Contains (ToUpper val) ''M'' \<or>
     Contains (ToUpper val) ''L'' \<or> Contains (ToUpper val) ''X''"

text \<open>The loop over the rows; \<open>ord i\<close> is the order in which the \<open>i\<close>-th row's entries are visited.\<close>

fun rows_have_indicator :: "(nat \<Rightarrow> string list) \<Rightarrow> nat \<Rightarrow> (string \<rightharpoonup> string) list \<Rightarrow> bool" where
  "rows_have_indicator ord i [] = False"
| "rows_have_indicator ord i (row # rows) =
     (if list_ex (\<lambda>(key, val). size_indicator val) (range_entries (ord i) row) then True
      else rows_have_indicator ord (Suc i) rows)"

definition IsValidSizeChart :: "(nat \<Rightarrow> string list) \<Rightarrow> SizeChart option \<Rightarrow> bool" where
  "IsValidSizeChart ord sizeChart =
     (case sizeChart of
        None \<Rightarrow> False
      | Some sc \<Rightarrow>
          if Headers sc = [] \<or> Rows sc = [] then False
          else if list_ex (\<lambda>keyword. Contains (ToLower (Join (Headers sc) '' '')) keyword) sizeKeywords
          then True
          else rows_have_indicator ord 0 (Rows sc))"

subsection \<open>ExtractCollectionURLs and ExtractProductURLsFromCollection\<close>




section \<open>The Suqah adapter\<close>



subsection \<open>isHeaderRow\<close>

definition header_word :: "string \<Rightarrow> bool" where
  "header_word upperValue \<longleftrightarrow>
     upperValue = ''BUST'' \<or> upperValue = ''WAIST'' \<or> upperValue = ''HIP'' \<or>
     upperValue = ''HIPS'' \<or> upperValue = ''SIZE'' \<or> upperValue = ''CHEST''"

text \<open>The counting loop; the state is \<open>(headerCount, totalValues)\<close>.\<close>

fun count_values :: "(string \<times> string) list \<Rightarrow> nat \<times> nat \<Rightarrow> nat \<times> nat" where
  "count_values [] (headerCount, totalValues) = (headerCount, totalValues)"
| "count_values ((key, val) # rest) (headerCount, totalValues) =
     (if val = [] then count_values rest (headerCount, totalValues)
      else count_values rest
             (if header_word (ToUpper (TrimSpace val)) then Suc headerCount else headerCount,
              Suc totalValues))"

definition isHeaderRow :: "string list \<Rightarrow> (string \<rightharpoonup> string) \<Rightarrow> bool" where
  "isHeaderRow ord row =
     (case count_values (range_entries ord row) (0, 0) of
        (headerCount, totalValues) \<Rightarrow> totalValues > 0 \<and> headerCount \<ge> totalValues div 2)"

section \<open>The Westside adapter\<close>



subsection \<open>cleanHeader and cleanSizeText\<close>

definition cleanHeader :: "string \<Rightarrow> string" where
  "cleanHeader header0 =
     (let header = ToLower (TrimSpace header0) in
      if Contains header ''shoulder'' \<or> Contains header ''to fit shoulder'' then ''Shoulder''
      else if Contains header ''chest'' \<or> Contains header ''to fit chest'' then ''Chest''
      else if Contains header ''waist'' \<or> Contains header ''to fit waist'' then ''Waist''
      else if Contains header ''hip'' \<or> Contains header ''to fit hip'' then ''Hip''
      else if Contains header ''bust'' \<or> Contains header ''to fit bust'' then ''Bust''
      else [])"

definition cleanSizeText :: "string \<Rightarrow> string" where
  "cleanSizeText sizeText =
     (let parts = Fields sizeText in
      if length parts \<ge> 2 then Join (take 2 parts) '' '' else sizeText)"





subsection \<open>extractDualUnitSizeChart\<close>

text \<open>
  The document query results the function reads. A \<open>cell\<close> carries \<^verbatim>\<open>cell.Text()\<close> and the
  texts of its first \<^verbatim>\<open>span.default\<close> and \<^verbatim>\<open>span.alt\<close>. A \<open>table\<close> carries \<open>header_cells\<close>, the
  texts of the elements matched by \<^verbatim>\<open>thead tr th, tr:first-child th, tr:first-child td\<close> in
  document order, and \<open>body_rows\<close>, for every row matched by
  \<^verbatim>\<open>tbody tr, tr:not(:first-child)\<close> the list of its \<^verbatim>\<open>td, th\<close> cells; which elements of a
  document the two selectors match is left to the query library. The table argument is \<open>None\<close>
  when the table selector matches nothing.
\<close>

record cell =
  cell_text :: string
  span_default :: string
  span_alt :: string

record table =
  header_cells :: "string list"
  body_rows :: "cell list list"



text \<open>The headers: the trimmed texts that are not empty. An empty header cell leaves no entry.\<close>

definition table_headers :: "table \<Rightarrow> string list" where
  "table_headers t = filter (\<lambda>header. header \<noteq> []) (map TrimSpace (header_cells t))"

fun add_measurement_headers :: "string list \<Rightarrow> string list \<Rightarrow> string list" where
  "add_measurement_headers [] chartHeaders = chartHeaders"
| "add_measurement_headers (header # rest) chartHeaders =
     add_measurement_headers rest
       (if \<not> Contains (ToLower header) ''size''
        then (if cleanHeader header \<noteq> []
              then chartHeaders @ [cleanHeader header @ '' (cm)'', cleanHeader header @ '' (in)'']
              else chartHeaders)
        else chartHeaders)"

text \<open>The loop over the cells of one row; the state is \<open>(row, colIndex)\<close>.\<close>

fun row_cells :: "string list \<Rightarrow> cell list \<Rightarrow> (string \<rightharpoonup> string) \<times> nat \<Rightarrow> (string \<rightharpoonup> string) \<times> nat" where
  "row_cells headers [] (row, colIndex) = (row, colIndex)"
| "row_cells headers (c # cells) (row, colIndex) =
     (if colIndex \<ge> length headers then row_cells headers cells (row, colIndex)
      else if Contains (ToLower (headers ! colIndex)) ''size''
      then row_cells headers cells
             (row(''Size'' \<mapsto>
                cleanSizeText (if TrimSpace (span_default c) = [] then TrimSpace (cell_text c)
                               else TrimSpace (span_default c))),
              Suc colIndex)
      else row_cells headers cells
             (if cleanHeader (headers ! colIndex) \<noteq> []
              then row(cleanHeader (headers ! colIndex) @ '' (cm)'' \<mapsto> TrimSpace (span_default c),
                       cleanHeader (headers ! colIndex) @ '' (in)'' \<mapsto> TrimSpace (span_alt c))
              else row,
              Suc colIndex))"

fun table_rows :: "string list \<Rightarrow> cell list list \<Rightarrow> (string \<rightharpoonup> string) list" where
  "table_rows headers [] = []"
| "table_rows headers (cells # rest) =
     (if fst (row_cells headers cells (Map.empty, 0)) \<noteq> Map.empty
      then fst (row_cells headers cells (Map.empty, 0)) # table_rows headers rest
      else table_rows headers rest)"

definition extractDualUnitSizeChart :: "table option \<Rightarrow> error + SizeChart" where
  "extractDualUnitSizeChart selection =
     (case selection of
        None \<Rightarrow> Inl TableNotFound
      | Some t \<Rightarrow>
          if table_headers t = [] then Inl NoHeaders
          else if table_rows (table_headers t) (body_rows t) = [] then Inl NoDataRows
          else Inr \<lparr>Headers = add_measurement_headers (table_headers t) [''Size''],
                    Rows = table_rows (table_headers t) (body_rows t)\<rparr>)"

section \<open>The LittleBoxIndia adapter\<close>

text \<open>
  A cell of the \<^verbatim>\<open>ks-table\<close>: its text and \<^verbatim>\<open>cell.AttrOr("data-unit-values", "")\<close>.
  \<^verbatim>\<open>encoding/json\<close> is a library outside the repository: \<open>Unmarshal s\<close> stands for
  \<^verbatim>\<open>json.Unmarshal\<close> into a \<^verbatim>\<open>map[string]string\<close>, \<open>None\<close> when it returns an error.
  The document that \<^verbatim>\<open>ExtractSizeChart\<close> and \<^verbatim>\<open>ExtractAllSizeCharts\<close> read is the selection
  \<^verbatim>\<open>table.ks-table\<close>: \<open>None\<close> when nothing matches, else the list of the rows matched by
  \<^verbatim>\<open>tr.ks-table-row\<close>, each the list of its \<^verbatim>\<open>td, th\<close> cells.
\<close>

record ks_cell =
  ks_text :: string
  data_unit_values :: string

definition clean_payload :: "string \<Rightarrow> string" where
  "clean_payload dataUnitValues = ReplaceAll dataUnitValues ''&quot;'' [CHR 0x22]"




subsection \<open>ExtractSizeChart\<close>

text \<open>The value appended to \<^verbatim>\<open>inchRow\<close> for one data cell.\<close>

definition inch_cell_value :: "(string \<Rightarrow> (string \<rightharpoonup> string) option) \<Rightarrow> ks_cell \<Rightarrow> string" where
  "inch_cell_value Unmarshal c =
     (if data_unit_values c \<noteq> [] then
        (case Unmarshal (clean_payload (data_unit_values c)) of
           Some unitMap \<Rightarrow> (case unitMap ''0'' of Some inchVal \<Rightarrow> inchVal | None \<Rightarrow> [])
         | None \<Rightarrow> TrimSpace (ks_text c))
      else TrimSpace (ks_text c))"






subsection \<open>ExtractAllSizeCharts: the data collected per size and unit\<close>







text \<open>
  What the loop body stores for one data cell, read off \<open>store_cell\<close>: the inch and the
  centimetre value, \<open>None\<close> when the decoded map has no entry for the unit and nothing is
  stored. The lemmas on the store loops are stated with them.
\<close>

definition stored_inch :: "(string \<Rightarrow> (string \<rightharpoonup> string) option) \<Rightarrow> ks_cell \<Rightarrow> string option" where
  "stored_inch Unmarshal c =
     (if data_unit_values c \<noteq> [] then
        (case Unmarshal (clean_payload (data_unit_values c)) of
           Some unitMap \<Rightarrow> unitMap ''0''
         | None \<Rightarrow> Some (TrimSpace (ks_text c)))
      else Some (TrimSpace (ks_text c)))"




subsection \<open>ExtractAllSizeCharts: the chart of one unit\<close>






section \<open>Sample inputs\<close>

text \<open>The chart of the specification's example, an iteration order for it, and its filtered chart.\<close>

definition fit_chart :: SizeChart where
  "fit_chart = \<lparr>Headers = [''SIZE'', ''TO FIT BUST'', ''TO FIT WAIST''],
                 Rows = [[''SIZE'' \<mapsto> ''S'', ''TO FIT BUST'' \<mapsto> ''34'', ''TO FIT WAIST'' \<mapsto> ''28'']]\<rparr>"

definition fit_order :: iteration_order where
  "fit_order = \<lparr>headerMap_order = (\<lambda>i. [''size'', ''bust'', ''waist'', ''hip'', ''hips'']),
                 inputToOutput_order = (\<lambda>i j. [''SIZE'', ''TO FIT BUST'', ''TO FIT WAIST''])\<rparr>"

definition fit_result :: SizeChart where
  "fit_result = \<lparr>Headers = [''Size'', ''Bust (in)'', ''Waist (in)'', ''Hip (in)''],
                  Rows = [[''Size'' \<mapsto> ''S'', ''Bust (in)'' \<mapsto> ''34'', ''Waist (in)'' \<mapsto> ''28'',
                           ''Hip (in)'' \<mapsto> []]]\<rparr>"

text \<open>A chart whose first row has a size and an empty measurement, and the same as a Westside table.\<close>

definition size_only_chart :: SizeChart where
  "size_only_chart = \<lparr>Headers = [''Size'', ''Bust''],
                       Rows = [[''Size'' \<mapsto> ''M'', ''Bust'' \<mapsto> []],
                               [''Size'' \<mapsto> ''L'', ''Bust'' \<mapsto> ''38'']]\<rparr>"

definition size_only_order :: iteration_order where
  "size_only_order = \<lparr>headerMap_order = (\<lambda>i. [''size'', ''bust'', ''waist'', ''hip'', ''hips'']),
                       inputToOutput_order = (\<lambda>i j. [''Size'', ''Bust''])\<rparr>"

definition size_only_result :: SizeChart where
  "size_only_result = \<lparr>Headers = [''Size'', ''Bust (in)'', ''Waist (in)'', ''Hip (in)''],
                        Rows = [[''Size'' \<mapsto> ''L'', ''Bust (in)'' \<mapsto> ''38'', ''Waist (in)'' \<mapsto> [],
                                 ''Hip (in)'' \<mapsto> []]]\<rparr>"

definition empty_measurement_table :: table where
  "empty_measurement_table =
     \<lparr>header_cells = [''Size'', ''Bust''],
      body_rows = [[\<lparr>cell_text = ''M'', span_default = [], span_alt = []\<rparr>,
                    \<lparr>cell_text = [], span_default = [], span_alt = []\<rparr>]]\<rparr>"

text \<open>
  A chart whose one header contains two keywords of \<^verbatim>\<open>headerMap\<close>, and two iteration orders for
  it that differ in the order of \<^verbatim>\<open>size\<close> and \<^verbatim>\<open>bust\<close>.
\<close>

definition bust_size_chart :: SizeChart where
  "bust_size_chart = \<lparr>Headers = [''Bust Size''], Rows = [[''Bust Size'' \<mapsto> ''34'']]\<rparr>"

definition size_first_order :: iteration_order where
  "size_first_order = \<lparr>headerMap_order = (\<lambda>i. [''size'', ''bust'', ''waist'', ''hip'', ''hips'']),
                        inputToOutput_order = (\<lambda>i j. [''Bust Size''])\<rparr>"

definition bust_first_order :: iteration_order where
  "bust_first_order = \<lparr>headerMap_order = (\<lambda>i. [''bust'', ''waist'', ''hip'', ''hips'', ''size'']),
                        inputToOutput_order = (\<lambda>i j. [''Bust Size''])\<rparr>"



text \<open>An order for the entries of the rows of the example chart.\<close>

definition fit_row_order :: "nat \<Rightarrow> string list" where
  "fit_row_order i = [''SIZE'', ''TO FIT BUST'', ''TO FIT WAIST'']"










section \<open>Deduplication\<close>

lemma dedup_loop_first_seen:
  "(\<And>u. (case seen u of Some b \<Rightarrow> b | None \<Rightarrow> False) \<longleftrightarrow> u \<in> set acc) \<Longrightarrow>
   dedup_loop urls seen acc = acc @ first_seen (filter (\<lambda>u. u \<notin> set acc) urls)"
proof (induction urls arbitrary: seen acc)
  case Nil
  then show ?case by simp
next
  case (Cons url urls)
  show ?case
  proof (cases "url \<in> set acc")
    case True
    with Cons.prems have "dedup_loop (url # urls) seen acc = dedup_loop urls seen acc"
      by simp
    with True Cons.IH [OF Cons.prems] show ?thesis by simp
  next
    case False
    let ?seen = "seen(url \<mapsto> True)"
    have inv: "\<And>u. (case ?seen u of Some b \<Rightarrow> b | None \<Rightarrow> False) \<longleftrightarrow> u \<in> set (acc @ [url])"
      using Cons.prems by auto
    from False Cons.prems
    have "dedup_loop (url # urls) seen acc = dedup_loop urls ?seen (acc @ [url])"
      by simp
    also have "\<dots> = (acc @ [url]) @ first_seen (filter (\<lambda>u. u \<notin> set (acc @ [url])) urls)"
      by (rule Cons.IH [OF inv])
    also have "filter (\<lambda>u. u \<notin> set (acc @ [url])) urls
        = filter (\<lambda>y. y \<noteq> url) (filter (\<lambda>u. u \<notin> set acc) urls)"
      by (auto intro: filter_cong)
    finally show ?thesis using False by simp
  qed
qed

lemma RemoveDuplicateURLs_first_seen: "RemoveDuplicateURLs urls = first_seen urls"
  by (simp add: RemoveDuplicateURLs_def dedup_loop_first_seen)

lemma set_first_seen: "set (first_seen xs) = set xs"
  by (induction xs rule: first_seen.induct) auto

lemma distinct_first_seen: "distinct (first_seen xs)"
  by (induction xs rule: first_seen.induct) (auto simp: set_first_seen)

lemma first_index_filter_less:
  "P a \<Longrightarrow> P b \<Longrightarrow> first_index a (filter P xs) < first_index b (filter P xs) \<Longrightarrow>
   first_index a xs < first_index b xs"
  by (induction xs) (auto simp: first_index_def split: if_splits)

lemma sorted_first_seen:
  "sorted_wrt (\<lambda>a b. first_index a xs < first_index b xs) (first_seen xs)"
proof (induction xs rule: first_seen.induct)
  case 1
  show ?case by simp
next
  case (2 x xs)
  let ?F = "filter (\<lambda>y. y \<noteq> x) xs"
  have head: "\<forall>y \<in> set (first_seen ?F). first_index x (x # xs) < first_index y (x # xs)"
    by (auto simp: set_first_seen first_index_def)
  have "sorted_wrt (\<lambda>a b. first_index a (x # xs) < first_index b (x # xs)) (first_seen ?F)"
  proof (rule sorted_wrt_mono_rel [OF _ "2.IH"])
    fix a b
    assume a: "a \<in> set (first_seen ?F)" and b: "b \<in> set (first_seen ?F)"
      and lt: "first_index a ?F < first_index b ?F"
    from a b have ne: "a \<noteq> x" "b \<noteq> x" by (auto simp: set_first_seen)
    from first_index_filter_less [of "\<lambda>y. y \<noteq> x" a b xs, OF ne lt]
    show "first_index a (x # xs) < first_index b (x # xs)"
      using ne by (simp add: first_index_def)
  qed
  with head show ?case by simp
qed

lemma first_seen_distinct_prefix:
  "distinct ds \<Longrightarrow> set rest \<subseteq> set ds \<Longrightarrow> first_seen (ds @ rest) = ds"
proof (induction ds arbitrary: rest)
  case Nil
  then show ?case by simp
next
  case (Cons d ds)
  have "filter (\<lambda>y. y \<noteq> d) (ds @ rest) = ds @ filter (\<lambda>y. y \<noteq> d) rest"
    using Cons.prems(1) by (auto intro: filter_True)
  moreover have "set (filter (\<lambda>y. y \<noteq> d) rest) \<subseteq> set ds"
    using Cons.prems(2) by auto
  ultimately show ?case using Cons.IH [of "filter (\<lambda>y. y \<noteq> d) rest"] Cons.prems(1) by simp
qed

text \<open>
  Claim C9. \<open>RemoveDuplicateURLs\<close> returns every distinct URL of its input exactly once (the
  result has no repetition, the same elements as the input, and as many entries as the input
  has distinct URLs), ordered by first occurrence: it is the first-seen reference, and its
  entries are sorted by the position of their first occurrence in the input. In particular a
  list that starts with \<open>n\<close> distinct URLs \<open>ds\<close> followed only by duplicates of them yields exactly
  \<open>ds\<close>.
\<close>

theorem RemoveDuplicateURLs_first_occurrence:
  "distinct (RemoveDuplicateURLs urls) \<and>
   set (RemoveDuplicateURLs urls) = set urls \<and>
   length (RemoveDuplicateURLs urls) = card (set urls) \<and>
   RemoveDuplicateURLs urls = first_seen urls \<and>
   sorted_wrt (\<lambda>a b. first_index a urls < first_index b urls) (RemoveDuplicateURLs urls) \<and>
   (distinct ds \<and> set rest \<subseteq> set ds \<longrightarrow> RemoveDuplicateURLs (ds @ rest) = ds)"
proof -
  have d: "distinct (RemoveDuplicateURLs urls)"
    by (simp add: RemoveDuplicateURLs_first_seen distinct_first_seen)
  have s: "set (RemoveDuplicateURLs urls) = set urls"
    by (simp add: RemoveDuplicateURLs_first_seen set_first_seen)
  have l: "length (RemoveDuplicateURLs urls) = card (set urls)"
    using distinct_card [OF d] s by simp
  have o: "sorted_wrt (\<lambda>a b. first_index a urls < first_index b urls) (RemoveDuplicateURLs urls)"
    by (simp add: RemoveDuplicateURLs_first_seen sorted_first_seen)
  have p: "distinct ds \<and> set rest \<subseteq> set ds \<longrightarrow> RemoveDuplicateURLs (ds @ rest) = ds"
    by (simp add: RemoveDuplicateURLs_first_seen first_seen_distinct_prefix)
  from d s l o p show ?thesis by (simp add: RemoveDuplicateURLs_first_seen)
qed

theorem RemoveDuplicateURLs_first_occurrence_witness:
  "RemoveDuplicateURLs [''/products/a'', ''/products/b'', ''/products/a'', ''/products/b'']
     = [''/products/a'', ''/products/b'']"
proof -
  have "distinct [''/products/a'', ''/products/b''] \<and>
        set [''/products/a'', ''/products/b''] \<subseteq> set [''/products/a'', ''/products/b'']"
    by simp
  then show ?thesis
    using RemoveDuplicateURLs_first_occurrence
            [of "[''/products/a'', ''/products/b'', ''/products/a'', ''/products/b'']"
                "[''/products/a'', ''/products/b'']" "[''/products/a'', ''/products/b'']"]
    by simp
qed

section \<open>Strings, map iteration and the loops of FilterSizeChart\<close>

lemma HasPrefix_prefix: "HasPrefix s p \<longleftrightarrow> prefix p s"
  by (induction s p rule: HasPrefix.induct) auto

lemma Contains_sublist: "Contains s substr \<longleftrightarrow> sublist substr s"
  by (induction s) (auto simp: HasPrefix_prefix sublist_Cons_right)

lemma in_range_entries: "(k, v) \<in> set (range_entries ks m) \<longleftrightarrow> k \<in> set ks \<and> m k = Some v"
  by (induction ks) (auto simp: range_entries_def split: option.splits)

lemma in_range_entries_valid:
  "valid_order ks m \<Longrightarrow> (k, v) \<in> set (range_entries ks m) \<longleftrightarrow> m k = Some v"
  by (auto simp: in_range_entries valid_order_def)

lemma first_canon_Some:
  "first_canon es lower = Some canon \<Longrightarrow> \<exists>key. (key, canon) \<in> set es \<and> Contains lower key"
  by (induction es lower rule: first_canon.induct) (auto split: if_splits)

lemma first_canon_None:
  "first_canon es lower = None \<longleftrightarrow> (\<forall>(key, canon) \<in> set es. \<not> Contains lower key)"
  by (induction es lower rule: first_canon.induct) auto

lemma find_value_Some:
  "find_value es outHeader row = Some v \<Longrightarrow>
   \<exists>inHeader. (inHeader, outHeader) \<in> set es \<and> row inHeader = Some v"
  by (induction es outHeader row rule: find_value.induct) (auto split: if_splits option.splits)

lemma find_value_None:
  "find_value es outHeader row = None \<longleftrightarrow>
   (\<forall>inHeader. (inHeader, outHeader) \<in> set es \<longrightarrow> row inHeader = None)"
  by (induction es outHeader row rule: find_value.induct) (auto split: option.splits)

lemma build_inputToOutput_other:
  "h \<notin> set hs \<Longrightarrow> build_inputToOutput ord i hs m h = m h"
  by (induction hs arbitrary: i m) (auto split: option.splits)

lemma dom_build_inputToOutput:
  "dom (build_inputToOutput ord i hs m) \<subseteq> dom m \<union> set hs"
  using build_inputToOutput_other [of _ hs ord i m] by (auto simp: dom_def)


lemma filteredRow_at_eq:
  "filteredRow_at ord io i row =
     [''Size'' \<mapsto> (case find_value (range_entries (ord i 0) io) ''Size'' row of Some v \<Rightarrow> v | None \<Rightarrow> []),
      ''Bust (in)'' \<mapsto> (case find_value (range_entries (ord i 1) io) ''Bust (in)'' row of Some v \<Rightarrow> v | None \<Rightarrow> []),
      ''Waist (in)'' \<mapsto> (case find_value (range_entries (ord i 2) io) ''Waist (in)'' row of Some v \<Rightarrow> v | None \<Rightarrow> []),
      ''Hip (in)'' \<mapsto> (case find_value (range_entries (ord i 3) io) ''Hip (in)'' row of Some v \<Rightarrow> v | None \<Rightarrow> [])]"
  by (simp add: filteredRow_at_def outputHeaders_def numeral_2_eq_2 numeral_3_eq_3)

lemma dom_filteredRow_at:
  "dom (filteredRow_at ord io i row) = {''Size'', ''Bust (in)'', ''Waist (in)'', ''Hip (in)''}"
  by (auto simp: filteredRow_at_eq)

lemma filter_rows_from:
  "filter_rows ord io k rows =
     map (\<lambda>i. filteredRow_at ord io i (rows ! (i - k)))
       (filter (\<lambda>i. has_measurement (filteredRow_at ord io i (rows ! (i - k)))) [k..<k + length rows])"
proof (induction rows arbitrary: k)
  case Nil
  show ?case by simp
next
  case (Cons r rs)
  define L where "L = [Suc k..<Suc k + length rs]"
  have upt: "[k..<k + length (r # rs)] = k # L"
    using upt_conv_Cons [of k "Suc (k + length rs)"] by (simp add: L_def)
  have idx: "(r # rs) ! (i - k) = rs ! (i - Suc k)" if "i \<in> set L" for i
  proof -
    from that have "i - k = Suc (i - Suc k)" by (auto simp: L_def)
    then show ?thesis by simp
  qed
  have f: "filter (\<lambda>i. has_measurement (filteredRow_at ord io i ((r # rs) ! (i - k)))) L
         = filter (\<lambda>i. has_measurement (filteredRow_at ord io i (rs ! (i - Suc k)))) L"
    by (rule filter_cong) (auto simp: idx)
  have m: "map (\<lambda>i. filteredRow_at ord io i ((r # rs) ! (i - k)))
             (filter (\<lambda>i. has_measurement (filteredRow_at ord io i (rs ! (i - Suc k)))) L)
         = map (\<lambda>i. filteredRow_at ord io i (rs ! (i - Suc k)))
             (filter (\<lambda>i. has_measurement (filteredRow_at ord io i (rs ! (i - Suc k)))) L)"
    by (rule map_cong) (auto simp: idx)
  have ih: "filter_rows ord io (Suc k) rs
         = map (\<lambda>i. filteredRow_at ord io i (rs ! (i - Suc k)))
             (filter (\<lambda>i. has_measurement (filteredRow_at ord io i (rs ! (i - Suc k)))) L)"
    unfolding L_def by (rule Cons.IH)
  show ?case
    unfolding upt by (simp add: f m ih)
qed

lemma filter_rows_kept:
  "filter_rows ord io 0 rows =
     map (\<lambda>i. filteredRow_at ord io i (rows ! i))
       (filter (\<lambda>i. has_measurement (filteredRow_at ord io i (rows ! i))) [0..<length rows])"
  using filter_rows_from [of ord io 0 rows] by simp

section \<open>The shape of the filtered chart\<close>

lemma find_value_absent:
  "(\<forall>inHeader. io inHeader = Some outHeader \<longrightarrow> row inHeader = None) \<Longrightarrow>
   find_value (range_entries ks io) outHeader row = None"
  by (simp add: find_value_None in_range_entries)

lemma filteredRow_at_absent:
  assumes "outHeader \<in> set outputHeaders"
    and "\<forall>inHeader. io inHeader = Some outHeader \<longrightarrow> row inHeader = None"
  shows "filteredRow_at ord io i row outHeader = Some []"
proof -
  have n: "\<And>ks. find_value (range_entries ks io) outHeader row = None"
    by (rule find_value_absent [OF assms(2)])
  from assms(1) consider "outHeader = ''Size''" | "outHeader = ''Bust (in)''"
    | "outHeader = ''Waist (in)''" | "outHeader = ''Hip (in)''"
    by (auto simp: outputHeaders_def)
  then show ?thesis
  proof cases
    case 1
    with n [of "ord i 0"] show ?thesis by (simp add: filteredRow_at_eq)
  next
    case 2
    with n [of "ord i 1"] show ?thesis by (simp add: filteredRow_at_eq)
  next
    case 3
    with n [of "ord i 2"] show ?thesis by (simp add: filteredRow_at_eq)
  next
    case 4
    with n [of "ord i 3"] show ?thesis by (simp add: filteredRow_at_eq)
  qed
qed

lemma sorted_kept_indices: "sorted_wrt (<) (filter P [0..<n])"
  by (rule sorted_wrt_filter) (rule sorted_wrt_upt)

text \<open>
  Claim C10. Whenever \<open>FilterSizeChart\<close> returns a chart (whatever the iteration orders of its
  map loops), the headers of the chart are exactly Size, Bust (in), Waist (in), Hip (in); every
  retained row has exactly these four keys; the retained rows are the filtered rows of a
  strictly increasing list of input row positions, so they keep the relative order of the input;
  and an output header for which the input row has no value under any input header mapped to it
  carries the empty string.
\<close>

theorem FilterSizeChart_output_shape:
  assumes "FilterSizeChart ord sizeChart = Some out"
  shows "Headers out = [''Size'', ''Bust (in)'', ''Waist (in)'', ''Hip (in)''] \<and>
         (\<forall>r \<in> set (Rows out). dom r = {''Size'', ''Bust (in)'', ''Waist (in)'', ''Hip (in)''}) \<and>
         (\<exists>sc idx. sizeChart = Some sc \<and> sorted_wrt (<) idx \<and> set idx \<subseteq> {..<length (Rows sc)} \<and>
            Rows out = map (\<lambda>i. filteredRow_at (inputToOutput_order ord) (inputToOutput_of ord sc) i
                                  (Rows sc ! i)) idx \<and>
            (\<forall>i outHeader.
               outHeader \<in> set outputHeaders \<and>
               (\<forall>inHeader. inputToOutput_of ord sc inHeader = Some outHeader \<longrightarrow>
                            (Rows sc ! i) inHeader = None) \<longrightarrow>
               filteredRow_at (inputToOutput_order ord) (inputToOutput_of ord sc) i (Rows sc ! i)
                 outHeader = Some []))"
proof -
  from assms obtain sc where sc: "sizeChart = Some sc"
    by (cases sizeChart) (simp_all add: FilterSizeChart_def)
  let ?io = "inputToOutput_of ord sc"
  let ?F = "\<lambda>i. filteredRow_at (inputToOutput_order ord) ?io i (Rows sc ! i)"
  let ?idx = "filter (\<lambda>i. has_measurement (?F i)) [0..<length (Rows sc)]"
  from assms have out: "out = \<lparr>Headers = outputHeaders, Rows = map ?F ?idx\<rparr>"
    unfolding sc FilterSizeChart_def filter_rows_kept by (simp split: if_splits)
  have h: "Headers out = [''Size'', ''Bust (in)'', ''Waist (in)'', ''Hip (in)'']"
    by (simp add: out outputHeaders_def)
  have d: "\<forall>r \<in> set (Rows out). dom r = {''Size'', ''Bust (in)'', ''Waist (in)'', ''Hip (in)''}"
    unfolding out by (simp add: dom_filteredRow_at)
  have s: "sorted_wrt (<) ?idx" by (rule sorted_kept_indices)
  have b: "set ?idx \<subseteq> {..<length (Rows sc)}" by auto
  have r: "Rows out = map ?F ?idx" by (simp add: out)
  have e: "\<forall>i outHeader.
             outHeader \<in> set outputHeaders \<and>
             (\<forall>inHeader. ?io inHeader = Some outHeader \<longrightarrow> (Rows sc ! i) inHeader = None) \<longrightarrow>
             ?F i outHeader = Some []"
    by (intro allI impI, elim conjE, rule filteredRow_at_absent)
  show ?thesis
    apply (intro conjI)
      apply (rule h)
     apply (rule d)
    apply (rule exI [of _ sc], rule exI [of _ ?idx])
    apply (intro conjI)
        apply (rule sc)
       apply (rule s)
      apply (rule b)
     apply (rule r)
    apply (rule e)
    done
qed

text \<open>\<open>ascii\<close> says that every byte is below \<^verbatim>\<open>0x80\<close>.\<close>

lemma ascii_bytes: "ascii s \<longleftrightarrow> (\<forall>c \<in> set s. of_char c < (128::nat))"
proof -
  have "\<not> digit7 c \<longleftrightarrow> of_char c < (128::nat)" for c
    by (cases c) (simp add: of_char_def bit_simps)
  then show ?thesis by (simp add: ascii_def list_all_iff)
qed

lemma ToLower_simps:
  "ToLower [] = []" "ToLower (c # cs) = lower_char c # ToLower cs"
  by (simp_all add: ToLower_def)

lemma lower_fit_headers:
  "ToLower ''SIZE'' = ''size''" "ToLower ''TO FIT BUST'' = ''to fit bust''"
  "ToLower ''TO FIT WAIST'' = ''to fit waist''"
  by (simp_all add: ToLower_def lower_char_def upper_letters_def lower_letters_def)

lemma fit_inputToOutput:
  "inputToOutput_of fit_order fit_chart =
     [''SIZE'' \<mapsto> ''Size'', ''TO FIT BUST'' \<mapsto> ''Bust (in)'', ''TO FIT WAIST'' \<mapsto> ''Waist (in)'']"
  by (simp add: inputToOutput_of_def fit_order_def fit_chart_def range_entries_def headerMap_def
        lower_fit_headers)

lemma fit_filter_rows:
  "filter_rows (inputToOutput_order fit_order)
     [''SIZE'' \<mapsto> ''Size'', ''TO FIT BUST'' \<mapsto> ''Bust (in)'', ''TO FIT WAIST'' \<mapsto> ''Waist (in)'']
     0 (Rows fit_chart) = Rows fit_result"
  by (simp add: fit_order_def fit_chart_def fit_result_def filteredRow_at_def outputHeaders_def
        range_entries_def has_measurement_def index_or_empty_def)

lemma fit_eval: "FilterSizeChart fit_order (Some fit_chart) = Some fit_result"
proof -
  have ne: "inputToOutput_of fit_order fit_chart \<noteq> Map.empty"
    unfolding fit_inputToOutput by simp
  show ?thesis
    unfolding FilterSizeChart_def using ne
    by (simp add: fit_inputToOutput fit_filter_rows) (simp add: fit_result_def outputHeaders_def)
qed

theorem FilterSizeChart_output_shape_witness:
  "FilterSizeChart fit_order (Some fit_chart) = Some fit_result \<and>
   Headers fit_result = [''Size'', ''Bust (in)'', ''Waist (in)'', ''Hip (in)'']"
proof -
  from FilterSizeChart_output_shape [OF fit_eval]
  have "Headers fit_result = [''Size'', ''Bust (in)'', ''Waist (in)'', ''Hip (in)'']"
    by (rule conjunct1)
  with fit_eval show ?thesis by (rule conjI)
qed

section \<open>Rows without a measurement\<close>

lemma has_measurement_iff:
  "has_measurement r \<longleftrightarrow>
     (\<exists>v. v \<noteq> [] \<and> (r ''Bust (in)'' = Some v \<or> r ''Waist (in)'' = Some v \<or> r ''Hip (in)'' = Some v))"
  by (auto simp: has_measurement_def index_or_empty_def split: option.splits)

lemma find_value_empty:
  assumes "\<forall>inHeader v. io inHeader = Some outHeader \<and> row inHeader = Some v \<longrightarrow> v = []"
  shows "(case find_value (range_entries ks io) outHeader row of Some v \<Rightarrow> v | None \<Rightarrow> []) = []"
proof (cases "find_value (range_entries ks io) outHeader row")
  case None
  then show ?thesis by simp
next
  case (Some v)
  from find_value_Some [OF Some] obtain inHeader
    where "(inHeader, outHeader) \<in> set (range_entries ks io)" and "row inHeader = Some v"
    by blast
  with assms have "v = []" by (auto simp: in_range_entries)
  with Some show ?thesis by simp
qed

lemma no_measurement:
  assumes "\<forall>inHeader outHeader v.
             io inHeader = Some outHeader \<and> outHeader \<in> {''Bust (in)'', ''Waist (in)'', ''Hip (in)''} \<and>
             row inHeader = Some v \<longrightarrow> v = []"
  shows "\<not> has_measurement (filteredRow_at ord io i row)"
proof -
  have b: "\<forall>inHeader v. io inHeader = Some ''Bust (in)'' \<and> row inHeader = Some v \<longrightarrow> v = []"
    using assms by blast
  have w: "\<forall>inHeader v. io inHeader = Some ''Waist (in)'' \<and> row inHeader = Some v \<longrightarrow> v = []"
    using assms by blast
  have h: "\<forall>inHeader v. io inHeader = Some ''Hip (in)'' \<and> row inHeader = Some v \<longrightarrow> v = []"
    using assms by blast
  show ?thesis
    unfolding has_measurement_def index_or_empty_def filteredRow_at_eq
    by (simp add: find_value_empty [OF b] find_value_empty [OF w] find_value_empty [OF h])
qed

text \<open>
  The row rule in \<open>FilterSizeChart\<close>. In every chart that \<open>FilterSizeChart\<close> returns,
  whatever the iteration orders, each row carries a non-empty value under Bust (in), Waist (in)
  or Hip (in); the rows of the chart are the filtered rows of exactly those input positions whose
  filtered row has such a value; and an input row whose values under all input headers mapped to
  Bust (in), Waist (in) or Hip (in) are empty is not among them, whatever its Size value.
\<close>

theorem FilterSizeChart_rows_have_measurement:
  assumes "FilterSizeChart ord (Some sc) = Some out"
  shows "(\<forall>r \<in> set (Rows out).
            \<exists>v. v \<noteq> [] \<and> (r ''Bust (in)'' = Some v \<or> r ''Waist (in)'' = Some v \<or> r ''Hip (in)'' = Some v)) \<and>
         Rows out =
           map (\<lambda>i. filteredRow_at (inputToOutput_order ord) (inputToOutput_of ord sc) i (Rows sc ! i))
             (filter (\<lambda>i. has_measurement
                             (filteredRow_at (inputToOutput_order ord) (inputToOutput_of ord sc) i (Rows sc ! i)))
                [0..<length (Rows sc)]) \<and>
         (\<forall>i. (\<forall>inHeader outHeader v.
                  inputToOutput_of ord sc inHeader = Some outHeader \<and>
                  outHeader \<in> {''Bust (in)'', ''Waist (in)'', ''Hip (in)''} \<and>
                  (Rows sc ! i) inHeader = Some v \<longrightarrow> v = []) \<longrightarrow>
              i \<notin> set (filter (\<lambda>i. has_measurement
                             (filteredRow_at (inputToOutput_order ord) (inputToOutput_of ord sc) i (Rows sc ! i)))
                          [0..<length (Rows sc)]))"
proof -
  let ?io = "inputToOutput_of ord sc"
  let ?F = "\<lambda>i. filteredRow_at (inputToOutput_order ord) ?io i (Rows sc ! i)"
  let ?idx = "filter (\<lambda>i. has_measurement (?F i)) [0..<length (Rows sc)]"
  from assms have out: "out = \<lparr>Headers = outputHeaders, Rows = map ?F ?idx\<rparr>"
    unfolding FilterSizeChart_def filter_rows_kept by (simp split: if_splits)
  have r: "Rows out = map ?F ?idx" by (simp add: out)
  have m: "\<forall>r \<in> set (Rows out).
            \<exists>v. v \<noteq> [] \<and> (r ''Bust (in)'' = Some v \<or> r ''Waist (in)'' = Some v \<or> r ''Hip (in)'' = Some v)"
  proof
    fix x assume "x \<in> set (Rows out)"
    then obtain i where "i \<in> set ?idx" and "x = ?F i" unfolding r by auto
    then have "has_measurement x" by simp
    then show "\<exists>v. v \<noteq> [] \<and> (x ''Bust (in)'' = Some v \<or> x ''Waist (in)'' = Some v \<or> x ''Hip (in)'' = Some v)"
      by (simp only: has_measurement_iff)
  qed
  have e: "\<forall>i. (\<forall>inHeader outHeader v.
                  ?io inHeader = Some outHeader \<and>
                  outHeader \<in> {''Bust (in)'', ''Waist (in)'', ''Hip (in)''} \<and>
                  (Rows sc ! i) inHeader = Some v \<longrightarrow> v = []) \<longrightarrow> i \<notin> set ?idx"
  proof (intro allI impI)
    fix i
    assume "\<forall>inHeader outHeader v.
                  ?io inHeader = Some outHeader \<and>
                  outHeader \<in> {''Bust (in)'', ''Waist (in)'', ''Hip (in)''} \<and>
                  (Rows sc ! i) inHeader = Some v \<longrightarrow> v = []"
    then have "\<not> has_measurement (?F i)" by (rule no_measurement)
    then show "i \<notin> set ?idx" by simp
  qed
  show ?thesis
    apply (intro conjI)
      apply (rule m)
     apply (rule r)
    apply (rule e)
    done
qed

lemma lower_size_only: "ToLower ''Size'' = ''size''" "ToLower ''Bust'' = ''bust''"
  by (simp_all add: ToLower_def lower_char_def upper_letters_def lower_letters_def)

lemma size_only_inputToOutput:
  "inputToOutput_of size_only_order size_only_chart = [''Size'' \<mapsto> ''Size'', ''Bust'' \<mapsto> ''Bust (in)'']"
  by (simp add: inputToOutput_of_def size_only_order_def size_only_chart_def range_entries_def
        headerMap_def lower_size_only)

lemma size_only_filter_rows:
  "filter_rows (inputToOutput_order size_only_order) [''Size'' \<mapsto> ''Size'', ''Bust'' \<mapsto> ''Bust (in)'']
     0 (Rows size_only_chart) = Rows size_only_result"
  by (simp add: size_only_order_def size_only_chart_def size_only_result_def filteredRow_at_def
        outputHeaders_def range_entries_def has_measurement_def index_or_empty_def)

lemma size_only_eval: "FilterSizeChart size_only_order (Some size_only_chart) = Some size_only_result"
proof -
  have ne: "inputToOutput_of size_only_order size_only_chart \<noteq> Map.empty"
    unfolding size_only_inputToOutput by simp
  show ?thesis
    unfolding FilterSizeChart_def using ne
    by (simp add: size_only_inputToOutput size_only_filter_rows)
       (simp add: size_only_result_def outputHeaders_def)
qed

theorem FilterSizeChart_rows_have_measurement_witness:
  "FilterSizeChart size_only_order (Some size_only_chart) = Some size_only_result \<and>
   (Rows size_only_chart ! 0) ''Size'' = Some ''M'' \<and>
   0 \<notin> set (filter (\<lambda>i. has_measurement
                 (filteredRow_at (inputToOutput_order size_only_order)
                    (inputToOutput_of size_only_order size_only_chart) i (Rows size_only_chart ! i)))
              [0..<length (Rows size_only_chart)])"
proof -
  have empty: "\<forall>inHeader outHeader v.
      inputToOutput_of size_only_order size_only_chart inHeader = Some outHeader \<and>
      outHeader \<in> {''Bust (in)'', ''Waist (in)'', ''Hip (in)''} \<and>
      (Rows size_only_chart ! 0) inHeader = Some v \<longrightarrow> v = []"
    unfolding size_only_inputToOutput by (simp add: size_only_chart_def)
  from FilterSizeChart_rows_have_measurement [OF size_only_eval]
  have "\<forall>i. (\<forall>inHeader outHeader v.
                  inputToOutput_of size_only_order size_only_chart inHeader = Some outHeader \<and>
                  outHeader \<in> {''Bust (in)'', ''Waist (in)'', ''Hip (in)''} \<and>
                  (Rows size_only_chart ! i) inHeader = Some v \<longrightarrow> v = []) \<longrightarrow>
              i \<notin> set (filter (\<lambda>i. has_measurement
                             (filteredRow_at (inputToOutput_order size_only_order)
                                (inputToOutput_of size_only_order size_only_chart) i (Rows size_only_chart ! i)))
                          [0..<length (Rows size_only_chart)])"
    by (elim conjE)
  with empty have "0 \<notin> set (filter (\<lambda>i. has_measurement
                 (filteredRow_at (inputToOutput_order size_only_order)
                    (inputToOutput_of size_only_order size_only_chart) i (Rows size_only_chart ! i)))
              [0..<length (Rows size_only_chart)])"
    by blast
  moreover have "(Rows size_only_chart ! 0) ''Size'' = Some ''M''"
    by (simp add: size_only_chart_def)
  ultimately show ?thesis using size_only_eval by blast
qed

text \<open>
  Claim C2 fails on the code. The Westside \<open>extractDualUnitSizeChart\<close> guards a row with
  \<^verbatim>\<open>len(row) > 0\<close> where \<open>FilterSizeChart\<close> and the LittleBoxIndia chart builder test the
  measurement values: for the table with the headers Size and Bust and one row whose size cell
  reads M and whose measurement cell is empty, the chart keeps the row with Size M and the empty
  string under both Bust (cm) and Bust (in).
\<close>

theorem extractDualUnitSizeChart_keeps_empty_row:
  "extractDualUnitSizeChart (Some empty_measurement_table) =
     Inr \<lparr>Headers = [''Size'', ''Bust (cm)'', ''Bust (in)''],
          Rows = [[''Size'' \<mapsto> ''M'', ''Bust (cm)'' \<mapsto> [], ''Bust (in)'' \<mapsto> []]]\<rparr>"
  by (simp add: extractDualUnitSizeChart_def empty_measurement_table_def table_headers_def
        TrimSpace_def is_space_def cleanHeader_def cleanSizeText_def Fields_def
        ToLower_def lower_char_def upper_letters_def lower_letters_def)

section \<open>Iteration orders: the example chart and a chart with two keywords in one header\<close>

lemma dom_headerMap: "dom headerMap = {''size'', ''bust'', ''waist'', ''hip'', ''hips''}"
  unfolding headerMap_def by (simp add: insert_commute)

lemma headerMap_Some:
  "headerMap key = Some canon \<Longrightarrow>
     key = ''size'' \<and> canon = ''Size'' \<or> key = ''bust'' \<and> canon = ''Bust (in)'' \<or>
     key = ''waist'' \<and> canon = ''Waist (in)'' \<or> key = ''hip'' \<and> canon = ''Hip (in)'' \<or>
     key = ''hips'' \<and> canon = ''Hip (in)''"
  unfolding headerMap_def by (simp split: if_splits)

lemma first_canon_determined:
  assumes "valid_order ks headerMap" and "headerMap key = Some canon" and "Contains lower key"
    and "\<forall>key' canon'. headerMap key' = Some canon' \<and> Contains lower key' \<longrightarrow> canon' = canon"
  shows "first_canon (range_entries ks headerMap) lower = Some canon"
proof (cases "first_canon (range_entries ks headerMap) lower")
  case None
  from assms(1,2) have "(key, canon) \<in> set (range_entries ks headerMap)"
    by (simp add: in_range_entries_valid)
  with None assms(3) show ?thesis by (auto simp: first_canon_None)
next
  case (Some c)
  from first_canon_Some [OF Some] obtain key'
    where "(key', c) \<in> set (range_entries ks headerMap)" and "Contains lower key'" by blast
  with assms(4) have "c = canon" by (auto simp: in_range_entries)
  with Some show ?thesis by simp
qed

lemma find_value_determined:
  assumes "valid_order ks io" and "io inHeader = Some outHeader" and "row inHeader = Some v"
    and "\<forall>inHeader' v'. io inHeader' = Some outHeader \<and> row inHeader' = Some v' \<longrightarrow> v' = v"
  shows "find_value (range_entries ks io) outHeader row = Some v"
proof (cases "find_value (range_entries ks io) outHeader row")
  case None
  from assms(1,2) have "(inHeader, outHeader) \<in> set (range_entries ks io)"
    by (simp add: in_range_entries_valid)
  with None assms(3) show ?thesis by (auto simp: find_value_None)
next
  case (Some v')
  from find_value_Some [OF Some] obtain inHeader'
    where "(inHeader', outHeader) \<in> set (range_entries ks io)" and "row inHeader' = Some v'" by blast
  with assms(4) have "v' = v" by (auto simp: in_range_entries)
  with Some show ?thesis by simp
qed

lemma fit_canon:
  assumes "valid_order ks headerMap"
  shows "first_canon (range_entries ks headerMap) ''size'' = Some ''Size''"
    and "first_canon (range_entries ks headerMap) ''to fit bust'' = Some ''Bust (in)''"
    and "first_canon (range_entries ks headerMap) ''to fit waist'' = Some ''Waist (in)''"
proof -
  show "first_canon (range_entries ks headerMap) ''size'' = Some ''Size''"
  proof (rule first_canon_determined [OF assms, of "''size''"])
    show "headerMap ''size'' = Some ''Size''" by (simp add: headerMap_def)
    show "Contains ''size'' ''size''" by simp
    show "\<forall>key' canon'. headerMap key' = Some canon' \<and> Contains ''size'' key' \<longrightarrow> canon' = ''Size''"
    proof (intro allI impI, elim conjE)
      fix key' canon' assume "headerMap key' = Some canon'" and c: "Contains ''size'' key'"
      from headerMap_Some [OF this(1)] c show "canon' = ''Size''" by (elim disjE conjE) simp_all
    qed
  qed
  show "first_canon (range_entries ks headerMap) ''to fit bust'' = Some ''Bust (in)''"
  proof (rule first_canon_determined [OF assms, of "''bust''"])
    show "headerMap ''bust'' = Some ''Bust (in)''" by (simp add: headerMap_def)
    show "Contains ''to fit bust'' ''bust''" by simp
    show "\<forall>key' canon'. headerMap key' = Some canon' \<and> Contains ''to fit bust'' key' \<longrightarrow> canon' = ''Bust (in)''"
    proof (intro allI impI, elim conjE)
      fix key' canon' assume "headerMap key' = Some canon'" and c: "Contains ''to fit bust'' key'"
      from headerMap_Some [OF this(1)] c show "canon' = ''Bust (in)''" by (elim disjE conjE) simp_all
    qed
  qed
  show "first_canon (range_entries ks headerMap) ''to fit waist'' = Some ''Waist (in)''"
  proof (rule first_canon_determined [OF assms, of "''waist''"])
    show "headerMap ''waist'' = Some ''Waist (in)''" by (simp add: headerMap_def)
    show "Contains ''to fit waist'' ''waist''" by simp
    show "\<forall>key' canon'. headerMap key' = Some canon' \<and> Contains ''to fit waist'' key' \<longrightarrow> canon' = ''Waist (in)''"
    proof (intro allI impI, elim conjE)
      fix key' canon' assume "headerMap key' = Some canon'" and c: "Contains ''to fit waist'' key'"
      from headerMap_Some [OF this(1)] c show "canon' = ''Waist (in)''" by (elim disjE conjE) simp_all
    qed
  qed
qed

lemma fit_inputToOutput_any:
  assumes "\<forall>i. valid_order (headerMap_order ord i) headerMap"
  shows "inputToOutput_of ord fit_chart =
     [''SIZE'' \<mapsto> ''Size'', ''TO FIT BUST'' \<mapsto> ''Bust (in)'', ''TO FIT WAIST'' \<mapsto> ''Waist (in)'']"
  using assms
  by (simp add: inputToOutput_of_def fit_chart_def lower_fit_headers fit_canon)

lemma fit_values:
  assumes "valid_order ks [''SIZE'' \<mapsto> ''Size'', ''TO FIT BUST'' \<mapsto> ''Bust (in)'',
                           ''TO FIT WAIST'' \<mapsto> ''Waist (in)'']"
    (is "valid_order ks ?io")
  shows "find_value (range_entries ks ?io) ''Size''
           [''SIZE'' \<mapsto> ''S'', ''TO FIT BUST'' \<mapsto> ''34'', ''TO FIT WAIST'' \<mapsto> ''28''] = Some ''S''"
    and "find_value (range_entries ks ?io) ''Bust (in)''
           [''SIZE'' \<mapsto> ''S'', ''TO FIT BUST'' \<mapsto> ''34'', ''TO FIT WAIST'' \<mapsto> ''28''] = Some ''34''"
    and "find_value (range_entries ks ?io) ''Waist (in)''
           [''SIZE'' \<mapsto> ''S'', ''TO FIT BUST'' \<mapsto> ''34'', ''TO FIT WAIST'' \<mapsto> ''28''] = Some ''28''"
    and "find_value (range_entries ks ?io) ''Hip (in)''
           [''SIZE'' \<mapsto> ''S'', ''TO FIT BUST'' \<mapsto> ''34'', ''TO FIT WAIST'' \<mapsto> ''28''] = None"
proof -
  show "find_value (range_entries ks ?io) ''Size''
           [''SIZE'' \<mapsto> ''S'', ''TO FIT BUST'' \<mapsto> ''34'', ''TO FIT WAIST'' \<mapsto> ''28''] = Some ''S''"
    by (rule find_value_determined [OF assms, of "''SIZE''"]) (simp_all split: if_splits)
  show "find_value (range_entries ks ?io) ''Bust (in)''
           [''SIZE'' \<mapsto> ''S'', ''TO FIT BUST'' \<mapsto> ''34'', ''TO FIT WAIST'' \<mapsto> ''28''] = Some ''34''"
    by (rule find_value_determined [OF assms, of "''TO FIT BUST''"]) (simp_all split: if_splits)
  show "find_value (range_entries ks ?io) ''Waist (in)''
           [''SIZE'' \<mapsto> ''S'', ''TO FIT BUST'' \<mapsto> ''34'', ''TO FIT WAIST'' \<mapsto> ''28''] = Some ''28''"
    by (rule find_value_determined [OF assms, of "''TO FIT WAIST''"]) (simp_all split: if_splits)
  show "find_value (range_entries ks ?io) ''Hip (in)''
           [''SIZE'' \<mapsto> ''S'', ''TO FIT BUST'' \<mapsto> ''34'', ''TO FIT WAIST'' \<mapsto> ''28''] = None"
    by (rule find_value_absent) (simp split: if_splits)
qed

text \<open>
  Claim C3, as amended. For the chart with headers SIZE, TO FIT BUST, TO FIT WAIST and the one
  row S, 34, 28, \<open>FilterSizeChart\<close> returns, for every iteration order the runtime may choose,
  the chart with the four headers Size, Bust (in), Waist (in), Hip (in) and exactly one row,
  which maps Size to S, Bust (in) to 34, Waist (in) to 28 and Hip (in) to the empty string.
\<close>

theorem FilterSizeChart_fit_chart:
  assumes "valid_iteration ord fit_chart"
  shows "FilterSizeChart ord (Some fit_chart) =
           Some \<lparr>Headers = [''Size'', ''Bust (in)'', ''Waist (in)'', ''Hip (in)''],
                 Rows = [[''Size'' \<mapsto> ''S'', ''Bust (in)'' \<mapsto> ''34'', ''Waist (in)'' \<mapsto> ''28'',
                          ''Hip (in)'' \<mapsto> []]]\<rparr>"
proof -
  let ?io = "[''SIZE'' \<mapsto> ''Size'', ''TO FIT BUST'' \<mapsto> ''Bust (in)'', ''TO FIT WAIST'' \<mapsto> ''Waist (in)'']"
  from assms have hm: "\<forall>i. valid_order (headerMap_order ord i) headerMap"
    by (simp add: valid_iteration_def)
  have io: "inputToOutput_of ord fit_chart = ?io"
    by (rule fit_inputToOutput_any [OF hm])
  from assms have v: "\<And>i j. valid_order (inputToOutput_order ord i j) ?io"
    by (simp add: valid_iteration_def io)
  have ne: "inputToOutput_of ord fit_chart \<noteq> Map.empty"
    unfolding io by simp
  have row: "filteredRow_at (inputToOutput_order ord) ?io 0
               [''SIZE'' \<mapsto> ''S'', ''TO FIT BUST'' \<mapsto> ''34'', ''TO FIT WAIST'' \<mapsto> ''28'']
             = [''Size'' \<mapsto> ''S'', ''Bust (in)'' \<mapsto> ''34'', ''Waist (in)'' \<mapsto> ''28'', ''Hip (in)'' \<mapsto> []]"
    unfolding filteredRow_at_eq by (simp add: fit_values [OF v])
  have rows: "filter_rows (inputToOutput_order ord) ?io 0 (Rows fit_chart)
             = [[''Size'' \<mapsto> ''S'', ''Bust (in)'' \<mapsto> ''34'', ''Waist (in)'' \<mapsto> ''28'', ''Hip (in)'' \<mapsto> []]]"
    by (simp add: fit_chart_def row has_measurement_def index_or_empty_def)
  show ?thesis
    unfolding FilterSizeChart_def using ne
    by (simp add: io rows outputHeaders_def)
qed

lemma fit_order_valid: "valid_iteration fit_order fit_chart"
  unfolding valid_iteration_def fit_inputToOutput
  by (simp add: fit_order_def valid_order_def dom_headerMap insert_commute)

theorem FilterSizeChart_fit_chart_witness:
  "valid_iteration fit_order fit_chart \<and>
   FilterSizeChart fit_order (Some fit_chart) =
     Some \<lparr>Headers = [''Size'', ''Bust (in)'', ''Waist (in)'', ''Hip (in)''],
           Rows = [[''Size'' \<mapsto> ''S'', ''Bust (in)'' \<mapsto> ''34'', ''Waist (in)'' \<mapsto> ''28'',
                    ''Hip (in)'' \<mapsto> []]]\<rparr>"
  using fit_order_valid FilterSizeChart_fit_chart [OF fit_order_valid] by (rule conjI)

text \<open>
  Counterexample to claim C3 as stated: under an iteration order the runtime may choose, the
  headers of the filtered chart are the four canonical headers, Hip (in) included, not the
  three headers the claim names.
\<close>

theorem FilterSizeChart_fit_chart_headers:
  "valid_iteration fit_order fit_chart \<and>
   map_option Headers (FilterSizeChart fit_order (Some fit_chart))
     = Some [''Size'', ''Bust (in)'', ''Waist (in)'', ''Hip (in)''] \<and>
   map_option Headers (FilterSizeChart fit_order (Some fit_chart))
     \<noteq> Some [''Size'', ''Bust (in)'', ''Waist (in)'']"
  using fit_order_valid by (simp add: fit_eval fit_result_def)

lemma lower_bust_size: "ToLower ''Bust Size'' = ''bust size''"
  by (simp add: ToLower_def lower_char_def upper_letters_def lower_letters_def)

lemma size_first_inputToOutput:
  "inputToOutput_of size_first_order bust_size_chart = [''Bust Size'' \<mapsto> ''Size'']"
  by (simp add: inputToOutput_of_def size_first_order_def bust_size_chart_def range_entries_def
        headerMap_def lower_bust_size)

lemma bust_first_inputToOutput:
  "inputToOutput_of bust_first_order bust_size_chart = [''Bust Size'' \<mapsto> ''Bust (in)'']"
  by (simp add: inputToOutput_of_def bust_first_order_def bust_size_chart_def range_entries_def
        headerMap_def lower_bust_size)

lemma size_first_eval:
  "FilterSizeChart size_first_order (Some bust_size_chart)
     = Some \<lparr>Headers = [''Size'', ''Bust (in)'', ''Waist (in)'', ''Hip (in)''], Rows = []\<rparr>"
proof -
  have "filter_rows (inputToOutput_order size_first_order) [''Bust Size'' \<mapsto> ''Size''] 0
          (Rows bust_size_chart) = []"
    by (simp add: size_first_order_def bust_size_chart_def filteredRow_at_def outputHeaders_def
          range_entries_def has_measurement_def index_or_empty_def)
  then show ?thesis
    unfolding FilterSizeChart_def by (simp add: size_first_inputToOutput outputHeaders_def)
qed

lemma bust_first_eval:
  "FilterSizeChart bust_first_order (Some bust_size_chart)
     = Some \<lparr>Headers = [''Size'', ''Bust (in)'', ''Waist (in)'', ''Hip (in)''],
             Rows = [[''Size'' \<mapsto> [], ''Bust (in)'' \<mapsto> ''34'', ''Waist (in)'' \<mapsto> [],
                      ''Hip (in)'' \<mapsto> []]]\<rparr>"
proof -
  have "filter_rows (inputToOutput_order bust_first_order) [''Bust Size'' \<mapsto> ''Bust (in)''] 0
          (Rows bust_size_chart)
        = [[''Size'' \<mapsto> [], ''Bust (in)'' \<mapsto> ''34'', ''Waist (in)'' \<mapsto> [], ''Hip (in)'' \<mapsto> []]]"
    by (simp add: bust_first_order_def bust_size_chart_def filteredRow_at_def outputHeaders_def
          range_entries_def has_measurement_def index_or_empty_def)
  then show ?thesis
    unfolding FilterSizeChart_def by (simp add: bust_first_inputToOutput outputHeaders_def)
qed

lemma bust_size_orders_valid:
  "valid_iteration size_first_order bust_size_chart"
  "valid_iteration bust_first_order bust_size_chart"
  unfolding valid_iteration_def size_first_inputToOutput bust_first_inputToOutput
  by (simp_all add: size_first_order_def bust_first_order_def valid_order_def dom_headerMap
        insert_commute)

text \<open>
  Claim C7 fails on the code. The chart with the one header \<^verbatim>\<open>Bust Size\<close> and the one row
  \<^verbatim>\<open>{"Bust Size": "34"}\<close> is filtered to a chart without rows when the loop over \<^verbatim>\<open>headerMap\<close>
  visits \<^verbatim>\<open>size\<close> before \<^verbatim>\<open>bust\<close>, and to a chart with the row Bust (in) = 34 when it visits
  \<^verbatim>\<open>bust\<close> first; both orders are orders the runtime may choose.
\<close>

theorem FilterSizeChart_depends_on_iteration_order:
  "valid_iteration size_first_order bust_size_chart \<and>
   valid_iteration bust_first_order bust_size_chart \<and>
   FilterSizeChart size_first_order (Some bust_size_chart)
     = Some \<lparr>Headers = [''Size'', ''Bust (in)'', ''Waist (in)'', ''Hip (in)''], Rows = []\<rparr> \<and>
   FilterSizeChart bust_first_order (Some bust_size_chart)
     = Some \<lparr>Headers = [''Size'', ''Bust (in)'', ''Waist (in)'', ''Hip (in)''],
             Rows = [[''Size'' \<mapsto> [], ''Bust (in)'' \<mapsto> ''34'', ''Waist (in)'' \<mapsto> [],
                      ''Hip (in)'' \<mapsto> []]]\<rparr> \<and>
   FilterSizeChart size_first_order (Some bust_size_chart)
     \<noteq> FilterSizeChart bust_first_order (Some bust_size_chart)"
  using bust_size_orders_valid by (simp add: size_first_eval bust_first_eval)

section \<open>Product links and header rows\<close>











lemma upper_samples: "ToUpper ''M'' = ''M''" "ToUpper ''S'' = ''S''" "ToUpper ''36'' = ''36''"
  "ToUpper ''BUST'' = ''BUST''"
  by (simp_all add: ToUpper_def upper_char_def upper_letters_def lower_letters_def)

lemma trim_samples: "TrimSpace ''M'' = ''M''" "TrimSpace ''S'' = ''S''" "TrimSpace ''36'' = ''36''"
  "TrimSpace ''BUST'' = ''BUST''"
  by (simp_all add: TrimSpace_def is_space_def)

text \<open>
  Claim C6 fails on the code: \<open>isHeaderRow\<close> compares the number of label words with half the
  number of non-empty values rounded down, and accepts equality. A row whose only non-empty
  value is the size M holds no label word and is classified as a header row; so is a row with
  one label word among three non-empty values.
\<close>

theorem isHeaderRow_without_majority:
  "count_values (range_entries [''Size''] [''Size'' \<mapsto> ''M'']) (0, 0) = (0, 1) \<and>
   isHeaderRow [''Size''] [''Size'' \<mapsto> ''M''] \<and>
   count_values (range_entries [''Size'', ''HIPS'', ''BUST'']
                   [''Size'' \<mapsto> ''S'', ''HIPS'' \<mapsto> ''36'', ''BUST'' \<mapsto> ''BUST'']) (0, 0) = (1, 3) \<and>
   isHeaderRow [''Size'', ''HIPS'', ''BUST''] [''Size'' \<mapsto> ''S'', ''HIPS'' \<mapsto> ''36'', ''BUST'' \<mapsto> ''BUST'']"
  by (simp add: isHeaderRow_def range_entries_def header_word_def upper_samples trim_samples)

section \<open>The validity classifier\<close>

lemma ToLower_append: "ToLower (a @ b) = ToLower a @ ToLower b"
  by (simp add: ToLower_def)

lemma lower_char_space: "lower_char (CHR '' '') = CHR '' ''"
  by (simp add: lower_char_def upper_letters_def lower_letters_def)

lemma ToLower_Join: "ToLower (Join hs '' '') = Join (map ToLower hs) '' ''"
proof (induction hs "'' ''" rule: Join.induct)
  case 1
  show ?case by (simp add: ToLower_def)
next
  case (2 x)
  show ?case by simp
next
  case (3 x y ys)
  then show ?case by (simp add: ToLower_append ToLower_simps lower_char_space)
qed

text \<open>A word that holds no separator occurs in a joined text only inside one of the parts.\<close>

lemma sublist_sep:
  assumes "kw \<noteq> []" and "sep \<notin> set kw"
  shows "sublist kw (a @ sep # b) \<longleftrightarrow> sublist kw a \<or> sublist kw b"
proof
  assume "sublist kw (a @ sep # b)"
  then consider "sublist kw a" | "sublist kw (sep # b)"
    | xs1 xs2 where "kw = xs1 @ xs2" "suffix xs1 a" "prefix xs2 (sep # b)"
    unfolding sublist_append by blast
  then show "sublist kw a \<or> sublist kw b"
  proof cases
    case 1
    then show ?thesis by simp
  next
    case 2
    then have "prefix kw (sep # b) \<or> sublist kw b" by (simp add: sublist_Cons_right)
    moreover have "\<not> prefix kw (sep # b)"
      using assms by (cases kw) (auto simp: prefix_Cons)
    ultimately show ?thesis by simp
  next
    case 3
    from 3(3) assms(2) 3(1) have "xs2 = []" by (cases xs2) (auto simp: prefix_Cons)
    with 3(1,2) have "suffix kw a" by simp
    then show ?thesis by auto
  qed
next
  assume "sublist kw a \<or> sublist kw b"
  then show "sublist kw (a @ sep # b)"
    unfolding sublist_append by (auto simp: sublist_Cons_right)
qed

lemma Contains_Join:
  assumes "kw \<noteq> []" and "CHR '' '' \<notin> set kw"
  shows "Contains (Join hs '' '') kw \<longleftrightarrow> (\<exists>h \<in> set hs. Contains h kw)"
proof (induction hs "'' ''" rule: Join.induct)
  case 1
  from assms(1) show ?case by (simp add: Contains_sublist)
next
  case (2 x)
  show ?case by simp
next
  case (3 x y ys)
  have "Contains (Join (x # y # ys) '' '') kw
        \<longleftrightarrow> sublist kw (x @ CHR '' '' # Join (y # ys) '' '')"
    by (simp add: Contains_sublist)
  also have "\<dots> \<longleftrightarrow> sublist kw x \<or> sublist kw (Join (y # ys) '' '')"
    by (rule sublist_sep [OF assms])
  also have "\<dots> \<longleftrightarrow> Contains x kw \<or> (\<exists>h \<in> set (y # ys). Contains h kw)"
    using 3 by (simp add: Contains_sublist)
  finally show ?case by simp
qed

lemma sizeKeywords_plain: "kw \<in> set sizeKeywords \<Longrightarrow> kw \<noteq> [] \<and> CHR '' '' \<notin> set kw"
  unfolding sizeKeywords_def by (elim disjE | simp)+

lemma header_keyword_iff:
  "list_ex (\<lambda>keyword. Contains (ToLower (Join hs '' '')) keyword) sizeKeywords
   \<longleftrightarrow> (\<exists>h \<in> set hs. \<exists>kw \<in> set sizeKeywords. Contains (ToLower h) kw)"
proof -
  have "\<And>kw. kw \<in> set sizeKeywords \<Longrightarrow>
          Contains (ToLower (Join hs '' '')) kw \<longleftrightarrow> (\<exists>h \<in> set hs. Contains (ToLower h) kw)"
    using sizeKeywords_plain by (simp add: ToLower_Join Contains_Join)
  then show ?thesis unfolding list_ex_iff by blast
qed

lemma row_indicator_iff:
  assumes "valid_order ks row"
  shows "list_ex (\<lambda>(key, val). size_indicator val) (range_entries ks row)
         \<longleftrightarrow> (\<exists>v \<in> ran row. size_indicator v)"
proof -
  have "list_ex (\<lambda>(key, val). size_indicator val) (range_entries ks row)
        \<longleftrightarrow> (\<exists>k v. (k, v) \<in> set (range_entries ks row) \<and> size_indicator v)"
    unfolding list_ex_iff by auto
  also have "\<dots> \<longleftrightarrow> (\<exists>k v. row k = Some v \<and> size_indicator v)"
    by (simp add: in_range_entries_valid [OF assms])
  also have "\<dots> \<longleftrightarrow> (\<exists>v \<in> ran row. size_indicator v)"
    by (auto simp: ran_def)
  finally show ?thesis .
qed

lemma rows_have_indicator_iff:
  assumes "\<forall>i < length rows. valid_order (ord (k + i)) (rows ! i)"
  shows "rows_have_indicator ord k rows \<longleftrightarrow> (\<exists>row \<in> set rows. \<exists>v \<in> ran row. size_indicator v)"
  using assms
proof (induction rows arbitrary: k)
  case Nil
  show ?case by simp
next
  case (Cons r rs)
  from Cons.prems have v0: "valid_order (ord k) r" by fastforce
  have "\<forall>i < length rs. valid_order (ord (Suc k + i)) (rs ! i)"
  proof (intro allI impI)
    fix i assume "i < length rs"
    with Cons.prems have "valid_order (ord (k + Suc i)) ((r # rs) ! Suc i)" by fastforce
    then show "valid_order (ord (Suc k + i)) (rs ! i)" by simp
  qed
  from Cons.IH [OF this] show ?case
    by (simp add: row_indicator_iff [OF v0])
qed

text \<open>
  Claim C4. For a chart whose headers and cell values are ASCII strings, and given, for every
  row, an order in which the runtime may visit its entries, \<open>IsValidSizeChart\<close> returns true
  exactly when the chart is non-nil, has at least one header and at least one row, and either
  some header, lower-cased, contains one of size, bust, waist, hip, chest, length, width, or some
  cell value, upper-cased, contains one of S, M, L, X. A nil chart, and a chart with no header
  or no row, yields false for every order and whatever its strings.
\<close>

theorem IsValidSizeChart_iff:
  assumes "\<forall>sc i. sizeChart = Some sc \<and> i < length (Rows sc) \<longrightarrow> valid_order (ord i) (Rows sc ! i)"
    and "\<forall>sc. sizeChart = Some sc \<longrightarrow>
           (\<forall>h \<in> set (Headers sc). ascii h) \<and> (\<forall>row \<in> set (Rows sc). \<forall>v \<in> ran row. ascii v)"
  shows "(IsValidSizeChart ord sizeChart \<longleftrightarrow>
           (\<exists>sc. sizeChart = Some sc \<and> Headers sc \<noteq> [] \<and> Rows sc \<noteq> [] \<and>
              ((\<exists>h \<in> set (Headers sc).
                  \<exists>kw \<in> set [''size'', ''bust'', ''waist'', ''hip'', ''chest'', ''length'', ''width''].
                    Contains (ToLower h) kw) \<or>
               (\<exists>row \<in> set (Rows sc). \<exists>v \<in> ran row.
                  Contains (ToUpper v) ''S'' \<or> Contains (ToUpper v) ''M'' \<or>
                  Contains (ToUpper v) ''L'' \<or> Contains (ToUpper v) ''X'')))) \<and>
         \<not> IsValidSizeChart ord' None \<and>
         (Headers sc' = [] \<or> Rows sc' = [] \<longrightarrow> \<not> IsValidSizeChart ord' (Some sc'))"
proof (intro conjI)
  show "\<not> IsValidSizeChart ord' None"
    by (simp add: IsValidSizeChart_def)
  show "Headers sc' = [] \<or> Rows sc' = [] \<longrightarrow> \<not> IsValidSizeChart ord' (Some sc')"
    by (simp add: IsValidSizeChart_def)
  show "IsValidSizeChart ord sizeChart \<longleftrightarrow>
           (\<exists>sc. sizeChart = Some sc \<and> Headers sc \<noteq> [] \<and> Rows sc \<noteq> [] \<and>
              ((\<exists>h \<in> set (Headers sc).
                  \<exists>kw \<in> set [''size'', ''bust'', ''waist'', ''hip'', ''chest'', ''length'', ''width''].
                    Contains (ToLower h) kw) \<or>
               (\<exists>row \<in> set (Rows sc). \<exists>v \<in> ran row.
                  Contains (ToUpper v) ''S'' \<or> Contains (ToUpper v) ''M'' \<or>
                  Contains (ToUpper v) ''L'' \<or> Contains (ToUpper v) ''X'')))"
  proof (cases sizeChart)
    case None
    then show ?thesis by (simp add: IsValidSizeChart_def)
  next
    case (Some sc)
    with assms(1) have "\<forall>i < length (Rows sc). valid_order (ord (0 + i)) (Rows sc ! i)"
      by simp
    from rows_have_indicator_iff [OF this]
    have rows: "rows_have_indicator ord 0 (Rows sc)
                \<longleftrightarrow> (\<exists>row \<in> set (Rows sc). \<exists>v \<in> ran row. size_indicator v)" .
    have kws: "set [''size'', ''bust'', ''waist'', ''hip'', ''chest'', ''length'', ''width'']
               = set sizeKeywords"
      by (simp only: sizeKeywords_def)
    show ?thesis
      unfolding Some kws
      by (simp add: IsValidSizeChart_def header_keyword_iff rows size_indicator_def)
  qed
qed

theorem IsValidSizeChart_iff_witness:
  "IsValidSizeChart fit_row_order (Some fit_chart)"
proof -
  have v: "\<forall>sc i. Some fit_chart = Some sc \<and> i < length (Rows sc)
             \<longrightarrow> valid_order (fit_row_order i) (Rows sc ! i)"
    by (simp add: fit_chart_def fit_row_order_def valid_order_def insert_commute)
  have r: "ran [''SIZE'' \<mapsto> ''S'', ''TO FIT BUST'' \<mapsto> ''34'', ''TO FIT WAIST'' \<mapsto> ''28'']
           = {''S'', ''34'', ''28''}"
    by (simp add: insert_commute)
  have a: "\<forall>sc. Some fit_chart = Some sc \<longrightarrow>
             (\<forall>h \<in> set (Headers sc). ascii h) \<and> (\<forall>row \<in> set (Rows sc). \<forall>v \<in> ran row. ascii v)"
    by (simp add: fit_chart_def r) (simp add: ascii_def)
  have h: "''SIZE'' \<in> set (Headers fit_chart)"
    by (simp add: fit_chart_def)
  have k: "''size'' \<in> set [''size'', ''bust'', ''waist'', ''hip'', ''chest'', ''length'', ''width'']"
    by simp
  have c: "Contains (ToLower ''SIZE'') ''size''"
    by (simp add: lower_fit_headers)
  have ne: "Headers fit_chart \<noteq> [] \<and> Rows fit_chart \<noteq> []"
    by (simp add: fit_chart_def)
  from IsValidSizeChart_iff [OF v a]
  have "IsValidSizeChart fit_row_order (Some fit_chart) \<longleftrightarrow>
           (\<exists>sc. Some fit_chart = Some sc \<and> Headers sc \<noteq> [] \<and> Rows sc \<noteq> [] \<and>
              ((\<exists>h \<in> set (Headers sc).
                  \<exists>kw \<in> set [''size'', ''bust'', ''waist'', ''hip'', ''chest'', ''length'', ''width''].
                    Contains (ToLower h) kw) \<or>
               (\<exists>row \<in> set (Rows sc). \<exists>v \<in> ran row.
                  Contains (ToUpper v) ''S'' \<or> Contains (ToUpper v) ''M'' \<or>
                  Contains (ToUpper v) ''L'' \<or> Contains (ToUpper v) ''X'')))"
    by (rule conjunct1)
  moreover from h k c ne
  have "\<exists>sc. Some fit_chart = Some sc \<and> Headers sc \<noteq> [] \<and> Rows sc \<noteq> [] \<and>
              ((\<exists>h \<in> set (Headers sc).
                  \<exists>kw \<in> set [''size'', ''bust'', ''waist'', ''hip'', ''chest'', ''length'', ''width''].
                    Contains (ToLower h) kw) \<or>
               (\<exists>row \<in> set (Rows sc). \<exists>v \<in> ran row.
                  Contains (ToUpper v) ''S'' \<or> Contains (ToUpper v) ''M'' \<or>
                  Contains (ToUpper v) ''L'' \<or> Contains (ToUpper v) ''X''))"
    by blast
  ultimately show ?thesis by (rule iffD2)
qed

section \<open>Dual-unit cells\<close>



































lemma inch_cell_value_stored:
  "inch_cell_value Unmarshal c = (case stored_inch Unmarshal c of Some v \<Rightarrow> v | None \<Rightarrow> [])"
  by (simp add: inch_cell_value_def stored_inch_def split: option.splits)












section \<open>The header canonicalizer and dropped columns\<close>















lemma add_measurement_headers_append:
  "add_measurement_headers (hs1 @ hs2) acc
     = add_measurement_headers hs2 (add_measurement_headers hs1 acc)"
  by (induction hs1 arbitrary: acc) simp_all

lemma add_measurement_headers_drop:
  assumes "cleanHeader h = []"
  shows "add_measurement_headers (hs1 @ h # hs2) acc = add_measurement_headers (hs1 @ hs2) acc"
  using assms by (simp add: add_measurement_headers_append)
























end
